theory Spec2Isabelle
  imports Main "HOL-Library.Sublist"
begin

section \<open>Python strings\<close>

text \<open>
  A Python \<open>str\<close> is modelled as a \<open>string\<close>: a list of characters, each a code point
  below 256. Whitespace, digits, word characters and letter case are the ones Python
  gives these code points, so the functions below are the library functions of the
  source on such text.
\<close>

abbreviation NL :: char where "NL \<equiv> CHR 0x0A"

text \<open>\<open>str.isspace\<close> and the class \<open>\s\<close> of \<open>re\<close>.\<close>

definition is_space :: "char \<Rightarrow> bool" where
  "is_space c = (c \<in> set [CHR 0x09, CHR 0x0A, CHR 0x0B, CHR 0x0C, CHR 0x0D, CHR 0x1C,
                             CHR 0x1D, CHR 0x1E, CHR 0x1F, CHR 0x20, CHR 0x85, CHR 0xA0])"

text \<open>The class \<open>\d\<close>.\<close>

definition is_digit :: "char \<Rightarrow> bool" where
  "is_digit c = (c \<in> set ''0123456789'')"

text \<open>The ranges \<open>A-Z\<close> and \<open>a-z\<close>.\<close>

definition is_AZ :: "char \<Rightarrow> bool" where
  "is_AZ c = (c \<in> set ''ABCDEFGHIJKLMNOPQRSTUVWXYZ'')"

definition is_az :: "char \<Rightarrow> bool" where
  "is_az c = (c \<in> set ''abcdefghijklmnopqrstuvwxyz'')"

text \<open>The letters and numerals above the ASCII range that \<open>\w\<close> accepts.\<close>

definition latin_word_chars :: "char list" where
  "latin_word_chars =
       [CHR 0xAA, CHR 0xB2, CHR 0xB3, CHR 0xB5, CHR 0xB9, CHR 0xBA, CHR 0xBC, CHR 0xBD,
        CHR 0xBE, CHR 0xC0, CHR 0xC1, CHR 0xC2, CHR 0xC3, CHR 0xC4, CHR 0xC5, CHR 0xC6,
        CHR 0xC7, CHR 0xC8, CHR 0xC9, CHR 0xCA, CHR 0xCB, CHR 0xCC, CHR 0xCD, CHR 0xCE,
        CHR 0xCF, CHR 0xD0, CHR 0xD1, CHR 0xD2, CHR 0xD3, CHR 0xD4, CHR 0xD5, CHR 0xD6,
        CHR 0xD8, CHR 0xD9, CHR 0xDA, CHR 0xDB, CHR 0xDC, CHR 0xDD, CHR 0xDE, CHR 0xDF,
        CHR 0xE0, CHR 0xE1, CHR 0xE2, CHR 0xE3, CHR 0xE4, CHR 0xE5, CHR 0xE6, CHR 0xE7,
        CHR 0xE8, CHR 0xE9, CHR 0xEA, CHR 0xEB, CHR 0xEC, CHR 0xED, CHR 0xEE, CHR 0xEF,
        CHR 0xF0, CHR 0xF1, CHR 0xF2, CHR 0xF3, CHR 0xF4, CHR 0xF5, CHR 0xF6, CHR 0xF8,
        CHR 0xF9, CHR 0xFA, CHR 0xFB, CHR 0xFC, CHR 0xFD, CHR 0xFE, CHR 0xFF]"

text \<open>The class \<open>\w\<close>.\<close>

definition is_word :: "char \<Rightarrow> bool" where
  "is_word c = (is_az c \<or> is_AZ c \<or> is_digit c \<or> c = CHR ''_'' \<or> c \<in> set latin_word_chars)"

text \<open>The capital letters with a small form below 256, and their small forms.\<close>

definition capitals :: "char list" where
  "capitals = ''ABCDEFGHIJKLMNOPQRSTUVWXYZ'' @
       [CHR 0xC0, CHR 0xC1, CHR 0xC2, CHR 0xC3, CHR 0xC4, CHR 0xC5, CHR 0xC6, CHR 0xC7,
        CHR 0xC8, CHR 0xC9, CHR 0xCA, CHR 0xCB, CHR 0xCC, CHR 0xCD, CHR 0xCE, CHR 0xCF,
        CHR 0xD0, CHR 0xD1, CHR 0xD2, CHR 0xD3, CHR 0xD4, CHR 0xD5, CHR 0xD6, CHR 0xD8,
        CHR 0xD9, CHR 0xDA, CHR 0xDB, CHR 0xDC, CHR 0xDD, CHR 0xDE]"

definition smalls :: "char list" where
  "smalls = ''abcdefghijklmnopqrstuvwxyz'' @
       [CHR 0xE0, CHR 0xE1, CHR 0xE2, CHR 0xE3, CHR 0xE4, CHR 0xE5, CHR 0xE6, CHR 0xE7,
        CHR 0xE8, CHR 0xE9, CHR 0xEA, CHR 0xEB, CHR 0xEC, CHR 0xED, CHR 0xEE, CHR 0xEF,
        CHR 0xF0, CHR 0xF1, CHR 0xF2, CHR 0xF3, CHR 0xF4, CHR 0xF5, CHR 0xF6, CHR 0xF8,
        CHR 0xF9, CHR 0xFA, CHR 0xFB, CHR 0xFC, CHR 0xFD, CHR 0xFE]"

definition to_lower :: "char \<Rightarrow> char" where
  "to_lower c = (case map_of (zip capitals smalls) c of Some d \<Rightarrow> d | None \<Rightarrow> c)"

definition to_upper :: "char \<Rightarrow> char" where
  "to_upper c = (case map_of (zip smalls capitals) c of Some d \<Rightarrow> d | None \<Rightarrow> c)"

text \<open>\<open>s.lower()\<close>\<close>

definition lower :: "string \<Rightarrow> string" where
  "lower s = map to_lower s"

text \<open>\<open>s.strip()\<close>\<close>

definition strip :: "string \<Rightarrow> string" where
  "strip s = rev (dropWhile is_space (rev (dropWhile is_space s)))"

text \<open>\<open>t in s\<close> for two strings: \<open>contains s t\<close>.\<close>

fun contains :: "string \<Rightarrow> string \<Rightarrow> bool" where
  "contains [] t = (t = [])"
| "contains (c # cs) t = (prefix t (c # cs) \<or> contains cs t)"

text \<open>
  \<open>s.split(sep)\<close> with a separator: the pieces between the occurrences of \<open>sep\<close>, found
  from the left and not overlapping. Every call of the source passes a literal, non-empty
  separator (Python raises \<open>ValueError\<close> on an empty one).
\<close>

function split :: "string \<Rightarrow> string \<Rightarrow> string list" where
  "split sep [] = [[]]"
| "split sep (c # cs) =
     (if sep \<noteq> [] \<and> prefix sep (c # cs) then [] # split sep (drop (length sep - 1) cs)
      else (case split sep cs of [] \<Rightarrow> [[c]] | p # ps \<Rightarrow> (c # p) # ps))"
  by pat_completeness auto
termination
  by (relation "measure (\<lambda>(sep, s). length s)") auto





text \<open>
  \<open>list(dict.fromkeys(xs))\<close>: the elements of \<open>xs\<close> in the order of their first
  appearance, each once.
\<close>

fun fromkeys :: "'a list \<Rightarrow> 'a list" where
  "fromkeys [] = []"
| "fromkeys (x # xs) = x # fromkeys (filter (\<lambda>y. y \<noteq> x) xs)"

text \<open>
  Facts about \<open>contains\<close> and \<open>split\<close>: an occurrence is a prefix of a suffix, and the first
  piece of a split is the text before the first occurrence of the separator.
\<close>

lemma split_nonempty: "split sep s \<noteq> []"
  by (induction sep s rule: split.induct) (auto split: list.splits)

lemma contains_iff: "contains s t \<longleftrightarrow> (\<exists>k \<le> length s. prefix t (drop k s))"
proof (induction s)
  case Nil
  then show ?case by auto
next
  case (Cons c cs)
  show ?case
  proof
    assume "contains (c # cs) t"
    then consider "prefix t (c # cs)" | "contains cs t" by auto
    then show "\<exists>k \<le> length (c # cs). prefix t (drop k (c # cs))"
    proof cases
      case 1
      then show ?thesis by (intro exI[of _ 0]) simp
    next
      case 2
      with Cons obtain k where "k \<le> length cs" "prefix t (drop k cs)" by auto
      then show ?thesis by (intro exI[of _ "Suc k"]) simp
    qed
  next
    assume "\<exists>k \<le> length (c # cs). prefix t (drop k (c # cs))"
    then obtain k where k: "k \<le> length (c # cs)" "prefix t (drop k (c # cs))" by auto
    show "contains (c # cs) t"
    proof (cases k)
      case 0
      with k show ?thesis by simp
    next
      case (Suc j)
      with k have "j \<le> length cs" "prefix t (drop j cs)" by auto
      with Cons show ?thesis by auto
    qed
  qed
qed

lemma contains_prefix_part: "contains s (a @ b) \<Longrightarrow> contains s a"
  by (auto simp: contains_iff dest: append_prefixD)

lemma split_hd_occurrence:
  assumes "sep \<noteq> []"
  shows "contains s sep \<Longrightarrow>
         \<exists>rest. s = hd (split sep s) @ sep @ rest \<and>
                (\<forall>k < length (hd (split sep s)). \<not> prefix sep (drop k s))"
proof (induction s)
  case Nil
  with assms show ?case by simp
next
  case (Cons c cs)
  show ?case
  proof (cases "prefix sep (c # cs)")
    case True
    then obtain rest where rest: "c # cs = sep @ rest" by (auto simp: prefix_def)
    have hd: "hd (split sep (c # cs)) = []" using True assms by simp
    show ?thesis unfolding hd using rest by simp
  next
    case False
    with Cons.prems have "contains cs sep" by simp
    from Cons.IH[OF this] obtain rest where
      r: "cs = hd (split sep cs) @ sep @ rest"
      and n: "\<forall>k < length (hd (split sep cs)). \<not> prefix sep (drop k cs)" by blast
    have hd: "hd (split sep (c # cs)) = c # hd (split sep cs)"
      using False split_nonempty[of sep cs] by (cases "split sep cs") auto
    have "c # cs = hd (split sep (c # cs)) @ sep @ rest" using r hd by simp
    moreover have "\<forall>k < length (hd (split sep (c # cs))). \<not> prefix sep (drop k (c # cs))"
    proof (intro allI impI)
      fix k assume k: "k < length (hd (split sep (c # cs)))"
      show "\<not> prefix sep (drop k (c # cs))"
      proof (cases k)
        case 0
        with False show ?thesis by simp
      next
        case (Suc j)
        with k hd have "j < length (hd (split sep cs))" by simp
        with n Suc show ?thesis by simp
      qed
    qed
    ultimately show ?thesis by blast
  qed
qed

section \<open>Regular expressions\<close>

text \<open>
  The patterns of the source are written as terms of the type \<open>re\<close> and matched the way
  Python's \<open>re\<close> module matches them: by backtracking, the alternatives tried from the
  left, a greedy repetition longest first and a lazy one shortest first. Every quantifier
  of the source stands on a single character or character class, which is what \<open>Rep\<close>
  repeats. The flags \<open>re.IGNORECASE\<close>, \<open>re.MULTILINE\<close> and \<open>re.DOTALL\<close> are the three
  fields of \<open>flags\<close>.
\<close>

record flags =
  ignorecase :: bool
  multiline :: bool
  dotall :: bool

definition no_flags :: flags where
  "no_flags = \<lparr>ignorecase = False, multiline = False, dotall = False\<rparr>"

datatype cset =
    Dot
  | In "char \<Rightarrow> bool"
  | NotIn "char \<Rightarrow> bool"

datatype re =
    Lit string
  | Cls cset
  | Rep cset nat "nat option" bool
  | Seq re re
  | Alt re re
  | Grp nat re
  | Ahead re
  | Bol
  | Eol
  | EndZ

text \<open>
  \<open>Rep cs lo hi greedy\<close> is \<open>cs{lo,hi}\<close> (\<open>hi = None\<close>: unbounded), lazy when \<open>greedy\<close> is
  false; \<open>Grp n r\<close> is the capturing group number \<open>n\<close>; \<open>Ahead r\<close> is \<open>(?=r)\<close>; \<open>Bol\<close>,
  \<open>Eol\<close> and \<open>EndZ\<close> are \<open>^\<close>, \<open>$\<close> and \<open>\Z\<close>.
\<close>

definition seq :: "re list \<Rightarrow> re" where
  "seq rs = foldr Seq rs (Lit [])"

definition alt :: "re list \<Rightarrow> re" where
  "alt rs = foldr Alt (butlast rs) (last rs)"

abbreviation many :: "cset \<Rightarrow> re" where "many cs \<equiv> Rep cs 0 None True"
abbreviation many1 :: "cset \<Rightarrow> re" where "many1 cs \<equiv> Rep cs 1 None True"
abbreviation chr :: "char \<Rightarrow> cset" where "chr x \<equiv> In (\<lambda>c. c = x)"
abbreviation space :: cset where "space \<equiv> In is_space"
abbreviation digit :: cset where "digit \<equiv> In is_digit"

type_synonym caps = "(nat \<times> string) list"

text \<open>
  The state of a match: the character before the position (\<open>None\<close> at the start of the
  string), the text from the position on, and the groups closed so far, the last one
  first.
\<close>

type_synonym mstate = "char option \<times> string \<times> caps"

text \<open>
  Under \<open>re.IGNORECASE\<close> a character is in a class when it or its other case is, and a
  literal matches text that differs from it only in case.
\<close>

fun cset_ok :: "flags \<Rightarrow> cset \<Rightarrow> char \<Rightarrow> bool" where
  "cset_ok fl Dot c = (if dotall fl then True else c \<noteq> NL)"
| "cset_ok fl (In p) c =
     (if p c then True
      else if ignorecase fl then (if p (to_lower c) then True else p (to_upper c))
      else False)"
| "cset_ok fl (NotIn p) c =
     (if p c then False
      else if ignorecase fl then (if p (to_lower c) then False else \<not> p (to_upper c))
      else True)"

fun lit_ok :: "flags \<Rightarrow> string \<Rightarrow> string \<Rightarrow> bool" where
  "lit_ok fl [] s = True"
| "lit_ok fl (a # t) [] = False"
| "lit_ok fl (a # t) (b # s) =
     (if a = b then lit_ok fl t s
      else if ignorecase fl then (if to_lower a = to_lower b then lit_ok fl t s else False)
      else False)"

text \<open>The ways to cut a text after a run of characters of a class, the shortest run first.\<close>

fun run_splits :: "(char \<Rightarrow> bool) \<Rightarrow> string \<Rightarrow> (string \<times> string) list" where
  "run_splits p [] = [([], [])]"
| "run_splits p (x # xs) =
     ([], x # xs) # (if p x then map (\<lambda>(a, b). (x # a, b)) (run_splits p xs) else [])"

definition rep_alts ::
  "(char \<Rightarrow> bool) \<Rightarrow> nat \<Rightarrow> nat option \<Rightarrow> bool \<Rightarrow> string \<Rightarrow> (string \<times> string) list" where
  "rep_alts p lo hi greedy s =
     (let alts = filter (\<lambda>(a, b). lo \<le> length a \<and> (case hi of None \<Rightarrow> True | Some h \<Rightarrow> length a \<le> h))
                   (run_splits p s)
      in if greedy then rev alts else alts)"

fun first_some :: "('a \<Rightarrow> 'b option) \<Rightarrow> 'a list \<Rightarrow> 'b option" where
  "first_some f [] = None"
| "first_some f (x # xs) = (case f x of Some r \<Rightarrow> Some r | None \<Rightarrow> first_some f xs)"

definition after :: "char option \<Rightarrow> string \<Rightarrow> char option" where
  "after p a = (if a = [] then p else Some (last a))"

text \<open>
  \<open>rmatch fl r k st\<close> matches \<open>r\<close> at the state \<open>st\<close> and hands every state it can end in to
  the continuation \<open>k\<close>, in the order of Python's backtracking; the first one \<open>k\<close> accepts
  is the result.
\<close>

fun rmatch :: "flags \<Rightarrow> re \<Rightarrow> (mstate \<Rightarrow> mstate option) \<Rightarrow> mstate \<Rightarrow> mstate option" where
  "rmatch fl (Lit t) k (p, s, c) =
     (if lit_ok fl t s then k (after p (take (length t) s), drop (length t) s, c) else None)"
| "rmatch fl (Cls cs) k (p, s, c) =
     (case s of [] \<Rightarrow> None | x # xs \<Rightarrow> if cset_ok fl cs x then k (Some x, xs, c) else None)"
| "rmatch fl (Rep cs lo hi g) k (p, s, c) =
     first_some (\<lambda>(a, b). k (after p a, b, c)) (rep_alts (cset_ok fl cs) lo hi g s)"
| "rmatch fl (Seq a b) k st = rmatch fl a (\<lambda>st'. rmatch fl b k st') st"
| "rmatch fl (Alt a b) k st = (case rmatch fl a k st of Some r \<Rightarrow> Some r | None \<Rightarrow> rmatch fl b k st)"
| "rmatch fl (Grp n r) k (p, s, c) =
     rmatch fl r (\<lambda>(p', s', c'). k (p', s', (n, take (length s - length s') s) # c')) (p, s, c)"
| "rmatch fl (Ahead r) k (p, s, c) =
     (case rmatch fl r Some (p, s, c) of None \<Rightarrow> None | Some _ \<Rightarrow> k (p, s, c))"
| "rmatch fl Bol k (p, s, c) =
     (if p = None \<or> (multiline fl \<and> p = Some NL) then k (p, s, c) else None)"
| "rmatch fl Eol k (p, s, c) =
     (if s = [] \<or> (if multiline fl then hd s = NL else s = [NL]) then k (p, s, c) else None)"
| "rmatch fl EndZ k (p, s, c) = (if s = [] then k (p, s, c) else None)"

text \<open>A match at the position: the matched text, the groups, the text after the match.\<close>

definition match_here ::
  "flags \<Rightarrow> re \<Rightarrow> char option \<Rightarrow> string \<Rightarrow> (string \<times> caps \<times> string) option" where
  "match_here fl r p s =
     (case rmatch fl r Some (p, s, []) of
        None \<Rightarrow> None
      | Some (p', s', c) \<Rightarrow> Some (take (length s - length s') s, c, s'))"

text \<open>
  \<open>match.group(n)\<close>. In the patterns of the source every group takes part in every match,
  so the group is a string (never \<open>None\<close>).
\<close>

definition group :: "caps \<Rightarrow> nat \<Rightarrow> string" where
  "group c n = (case map_of c n of Some t \<Rightarrow> t | None \<Rightarrow> [])"


text \<open>\<open>re.match(r, s)\<close>: a match at the start of \<open>s\<close>.\<close>

definition re_match :: "flags \<Rightarrow> re \<Rightarrow> string \<Rightarrow> (string \<times> caps) option" where
  "re_match fl r s = map_option (\<lambda>(mt, c, rest). (mt, c)) (match_here fl r None s)"

text \<open>
  The leftmost match from a position on: the text skipped before it, the matched text,
  the groups and the text after it.
\<close>

fun re_scan ::
  "flags \<Rightarrow> re \<Rightarrow> char option \<Rightarrow> string \<Rightarrow> (string \<times> string \<times> caps \<times> string) option" where
  "re_scan fl r p [] =
     (case match_here fl r p [] of
        None \<Rightarrow> None
      | Some (mt, c, rest) \<Rightarrow> Some ([], mt, c, rest))"
| "re_scan fl r p (x # xs) =
     (case match_here fl r p (x # xs) of
        Some (mt, c, rest) \<Rightarrow> Some ([], mt, c, rest)
      | None \<Rightarrow>
          (case re_scan fl r (Some x) xs of
             None \<Rightarrow> None
           | Some (skip, mt, c, rest) \<Rightarrow> Some (x # skip, mt, c, rest)))"

text \<open>\<open>re.search(r, s)\<close>\<close>

definition re_search :: "flags \<Rightarrow> re \<Rightarrow> string \<Rightarrow> (string \<times> caps) option" where
  "re_search fl r s = map_option (\<lambda>(skip, mt, c, rest). (mt, c)) (re_scan fl r None s)"

text \<open>A match consumes a prefix of the text it starts on.\<close>

lemma run_splits_append: "(a, b) \<in> set (run_splits p s) \<Longrightarrow> s = a @ b"
  by (induction s arbitrary: a b) (auto split: if_splits)

lemma rep_alts_append: "(a, b) \<in> set (rep_alts p lo hi g s) \<Longrightarrow> s = a @ b"
  by (auto simp: rep_alts_def Let_def dest: run_splits_append split: if_splits)

lemma first_some_Some: "first_some f xs = Some r \<Longrightarrow> \<exists>x \<in> set xs. f x = Some r"
  by (induction xs) (auto split: option.splits)

lemma rmatch_suffix:
  "rmatch fl r k (p, s, c) = Some res \<Longrightarrow> \<exists>p' s' c'. k (p', s', c') = Some res \<and> suffix s' s"
proof (induction r arbitrary: k p s c res)
  case (Lit t)
  then have "k (after p (take (length t) s), drop (length t) s, c) = Some res"
    by (auto split: if_splits)
  moreover have "suffix (drop (length t) s) s" by (rule suffix_drop)
  ultimately show ?case by blast
next
  case (Cls cs)
  then show ?case by (auto split: list.splits if_splits intro: suffix_ConsI)
next
  case (Rep cs lo hi g)
  then obtain a b where ab: "(a, b) \<in> set (rep_alts (cset_ok fl cs) lo hi g s)"
    and k: "k (after p a, b, c) = Some res"
    by (auto dest!: first_some_Some)
  from ab have "s = a @ b" by (rule rep_alts_append)
  then have "suffix b s" by (simp add: suffix_def)
  with k show ?case by blast
next
  case (Seq a b)
  from Seq.prems have "rmatch fl a (\<lambda>st'. rmatch fl b k st') (p, s, c) = Some res" by simp
  from Seq.IH(1)[OF this] obtain p1 s1 c1 where
    1: "rmatch fl b k (p1, s1, c1) = Some res" and s1: "suffix s1 s" by blast
  from Seq.IH(2)[OF 1] obtain p2 s2 c2 where
    2: "k (p2, s2, c2) = Some res" and s2: "suffix s2 s1" by blast
  from s2 s1 have "suffix s2 s" by (rule suffix_order.trans)
  with 2 show ?case by blast
next
  case (Alt a b)
  then show ?case by (auto split: option.splits)
next
  case (Grp n r)
  from Grp.prems have
    "rmatch fl r (\<lambda>(p', s', c'). k (p', s', (n, take (length s - length s') s) # c')) (p, s, c) = Some res"
    by simp
  from Grp.IH[OF this] show ?case by auto
next
  case (Ahead r)
  then show ?case by (auto split: option.splits)
next
  case Bol
  then show ?case by (auto split: if_splits)
next
  case Eol
  then show ?case by (auto split: if_splits)
next
  case EndZ
  then show ?case by (auto split: if_splits)
qed

lemma match_here_append:
  assumes "match_here fl r p s = Some (mt, c, rest)"
  shows "s = mt @ rest"
proof -
  from assms obtain p' where mm: "rmatch fl r Some (p, s, []) = Some (p', rest, c)"
    and mt: "mt = take (length s - length rest) s"
    by (auto simp: match_here_def split: option.splits)
  from rmatch_suffix[OF mm] have "suffix rest s" by auto
  then obtain pre where "s = pre @ rest" by (auto simp: suffix_def)
  with mt show ?thesis by simp
qed

lemma re_scan_append: "re_scan fl r p s = Some (skip, mt, c, rest) \<Longrightarrow> s = skip @ mt @ rest"
  by (induction s arbitrary: p skip) (auto split: option.splits dest: match_here_append)

text \<open>
  The matches of \<open>re.finditer\<close>, from the left and not overlapping, each with the text
  skipped before it, and the text left after the last one. No pattern of the source
  matches the empty string; after an empty match the scan moves one character on.
\<close>

function re_pieces ::
  "flags \<Rightarrow> re \<Rightarrow> char option \<Rightarrow> string \<Rightarrow> (string \<times> string \<times> caps) list \<times> string" where
  "re_pieces fl r p s =
     (case re_scan fl r p s of
        None \<Rightarrow> ([], s)
      | Some (skip, mt, c, rest) \<Rightarrow>
          (if mt = [] then
             (case rest of
                [] \<Rightarrow> ([(skip, mt, c)], [])
              | x # xs \<Rightarrow>
                 (case re_pieces fl r (Some x) xs of
                    ([], rest') \<Rightarrow> ([(skip, mt, c)], x # rest')
                  | ((sk, mc) # ps, rest') \<Rightarrow> ((skip, mt, c) # (x # sk, mc) # ps, rest')))
           else
             (case re_pieces fl r (after p (skip @ mt)) rest of
                (ps, rest') \<Rightarrow> ((skip, mt, c) # ps, rest'))))"
  by pat_completeness auto
termination
proof (relation "measure (\<lambda>(fl, r, p, s). length s)", goal_cases)
  case 1
  then show ?case by simp
next
  case (2 fl r p s x2 skip y mt ya c rest x xs)
  then have "s = skip @ mt @ rest" by (auto dest: re_scan_append)
  with 2 show ?case by simp
next
  case (3 fl r p s x2 skip y mt ya c rest)
  then have "s = skip @ mt @ rest" by (auto dest: re_scan_append)
  with 3 show ?case by simp
qed

declare re_pieces.simps [simp del]

text \<open>\<open>re.finditer(r, s)\<close>: the matched texts with their groups.\<close>

definition re_finditer :: "flags \<Rightarrow> re \<Rightarrow> string \<Rightarrow> (string \<times> caps) list" where
  "re_finditer fl r s = map (\<lambda>(skip, mt, c). (mt, c)) (fst (re_pieces fl r None s))"

text \<open>\<open>re.findall(r, s)\<close> for a pattern with one group: the texts of the group.\<close>

definition re_findall :: "flags \<Rightarrow> re \<Rightarrow> string \<Rightarrow> string list" where
  "re_findall fl r s = map (\<lambda>(mt, c). group c 1) (re_finditer fl r s)"

text \<open>\<open>re.split(r, s)\<close> for a pattern without groups.\<close>

definition re_split :: "flags \<Rightarrow> re \<Rightarrow> string \<Rightarrow> string list" where
  "re_split fl r s = (case re_pieces fl r None s of (ps, rest) \<Rightarrow> map fst ps @ [rest])"

section \<open>Exceptions\<close>

text \<open>The exceptions the modelled code can raise.\<close>

datatype py_error =
    IndexError
  | AttributeError
  | TypeError
  | ValueError string

section \<open>The Firecrawl parser: naming a section after its heading\<close>

text \<open>
  The fallback of \<open>_infer_section_name\<close>:
  \<open>re.sub(r'[^\w\s]', '', heading_lower).replace(' ', '_')\<close>. The substitution deletes every
  character that is neither a word character nor whitespace.
\<close>

definition slugify :: "string \<Rightarrow> string" where
  "slugify heading_lower =
     map (\<lambda>c. if c = CHR '' '' then CHR ''_'' else c)
       (filter (\<lambda>c. is_word c \<or> is_space c) heading_lower)"

text \<open>\<open>_infer_section_name(heading)\<close>\<close>

definition infer_section_name :: "string \<Rightarrow> string" where
  "infer_section_name heading =
     (let heading_lower = lower heading in
      if contains heading_lower ''amenities'' \<or> contains heading_lower ''amenity'' then ''amenities''
      else if contains heading_lower ''room types'' \<or> contains heading_lower ''room type'' then ''room_types''
      else if contains heading_lower ''pricing'' \<or> contains heading_lower ''price''
              \<or> contains heading_lower ''fees'' then ''pricing''
      else if contains heading_lower ''faq'' \<or> contains heading_lower ''question'' then ''faqs''
      else if contains heading_lower ''about'' \<or> contains heading_lower ''overview'' then ''about''
      else if contains heading_lower ''location'' \<or> contains heading_lower ''commute'' then ''location''
      else if contains heading_lower ''nearby'' \<or> contains heading_lower ''surrounding'' then ''nearby_places''
      else if contains heading_lower ''features'' then ''features''
      else if contains heading_lower ''bills'' \<and> contains heading_lower ''payment'' then ''bills_and_payments''
      else if contains heading_lower ''bills'' then ''bills_included''
      else if contains heading_lower ''payment'' \<or> contains heading_lower ''policies'' then ''payment''
      else if contains heading_lower ''cancellation'' then ''cancellation''
      else if contains heading_lower ''offer'' \<or> contains heading_lower ''deal''
              \<or> contains heading_lower ''promotion'' then ''offers''
      else if contains heading_lower ''review'' \<or> contains heading_lower ''rating'' then ''reviews''
      else if contains heading_lower ''contact'' \<or> contains heading_lower ''support'' then ''contact''
      else slugify heading_lower)"

text \<open>
  The 21 section names of the taxonomy, as the prompt of \<open>SimpleLLMExtractor\<close> lists them.
\<close>

definition canonical_taxonomy :: "string list" where
  "canonical_taxonomy =
     [''hero_media'', ''property_overview'', ''address_core_details'', ''room_types'',
      ''pricing'', ''offers_deals'', ''amenities'', ''bills_included'', ''location_transport'',
      ''nearby_places'', ''payment_options'', ''booking_process'', ''cancellation_policies'',
      ''trust_badges'', ''faqs'', ''reviews_ratings'', ''contact_support'',
      ''similar_properties'', ''highlights'', ''safety_security'', ''company_info'']"

text \<open>
  The keyword groups in their order of priority, each with the name its match gives. A
  group is a list of alternatives, an alternative a list of terms that must all occur in
  the lowercase heading.
\<close>

definition keyword_groups :: "(string list list \<times> string) list" where
  "keyword_groups =
     [([[''amenities''], [''amenity'']], ''amenities''),
      ([[''room types''], [''room type'']], ''room_types''),
      ([[''pricing''], [''price''], [''fees'']], ''pricing''),
      ([[''faq''], [''question'']], ''faqs''),
      ([[''about''], [''overview'']], ''about''),
      ([[''location''], [''commute'']], ''location''),
      ([[''nearby''], [''surrounding'']], ''nearby_places''),
      ([[''features'']], ''features''),
      ([[''bills'', ''payment'']], ''bills_and_payments''),
      ([[''bills'']], ''bills_included''),
      ([[''payment''], [''policies'']], ''payment''),
      ([[''cancellation'']], ''cancellation''),
      ([[''offer''], [''deal''], [''promotion'']], ''offers''),
      ([[''review''], [''rating'']], ''reviews''),
      ([[''contact''], [''support'']], ''contact'')]"

definition group_matches :: "string \<Rightarrow> string list list \<Rightarrow> bool" where
  "group_matches h alts = list_ex (\<lambda>terms. list_all (contains h) terms) alts"

text \<open>The name of the first group of a list that matches, if one does.\<close>

fun first_group :: "string \<Rightarrow> (string list list \<times> string) list \<Rightarrow> string option" where
  "first_group h [] = None"
| "first_group h ((alts, name) # gs) = (if group_matches h alts then Some name else first_group h gs)"

text \<open>
  Claim C1, as the code has it. The name of a heading is the name of the first keyword
  group, in the order of \<open>keyword_groups\<close>, that matches the lowercase heading. The names
  are the parser's own, not all of the 21-name taxonomy: about or overview gives
  \<open>about\<close>, location or commute \<open>location\<close>, payment or policies \<open>payment\<close>,
  cancellation \<open>cancellation\<close>, offer, deal or promotion \<open>offers\<close>, review or rating
  \<open>reviews\<close>, contact or support \<open>contact\<close>; a group for \<open>features\<close> stands between the
  nearby group and the bills groups. A heading that matches no group is put in
  lowercase, loses every character that is neither a word character nor whitespace, and
  has each space replaced by an underscore.
\<close>

theorem infer_section_name_first_group:
  "infer_section_name heading =
     (case first_group (lower heading) keyword_groups of
        Some name \<Rightarrow> name
      | None \<Rightarrow> map (\<lambda>c. if c = CHR '' '' then CHR ''_'' else c)
                  (filter (\<lambda>c. is_word c \<or> is_space c) (lower heading)))"
  by (simp add: infer_section_name_def keyword_groups_def group_matches_def slugify_def Let_def)

theorem infer_section_name_first_group_witness:
  "infer_section_name ''About the property'' = ''about'' \<and>
   infer_section_name ''Location & Commute'' = ''location'' \<and>
   infer_section_name ''Payment Policies'' = ''payment'' \<and>
   infer_section_name ''Cancellation'' = ''cancellation'' \<and>
   infer_section_name ''Special Offers'' = ''offers'' \<and>
   infer_section_name ''Reviews'' = ''reviews'' \<and>
   infer_section_name ''Contact Us'' = ''contact'' \<and>
   infer_section_name ''Key Features'' = ''features'' \<and>
   infer_section_name ''What's Included?'' = ''whats_included''"
proof -
  have 1: "first_group (lower ''About the property'') keyword_groups = Some ''about''"
    by code_simp
  have 2: "first_group (lower ''Location & Commute'') keyword_groups = Some ''location''"
    by code_simp
  have 3: "first_group (lower ''Payment Policies'') keyword_groups = Some ''payment''"
    by code_simp
  have 4: "first_group (lower ''Cancellation'') keyword_groups = Some ''cancellation''"
    by code_simp
  have 5: "first_group (lower ''Special Offers'') keyword_groups = Some ''offers''"
    by code_simp
  have 6: "first_group (lower ''Reviews'') keyword_groups = Some ''reviews''"
    by code_simp
  have 7: "first_group (lower ''Contact Us'') keyword_groups = Some ''contact''"
    by code_simp
  have 8: "first_group (lower ''Key Features'') keyword_groups = Some ''features''"
    by code_simp
  have 9: "first_group (lower ''What's Included?'') keyword_groups = None"
    by code_simp
  have 10: "map (\<lambda>c. if c = CHR '' '' then CHR ''_'' else c)
              (filter (\<lambda>c. is_word c \<or> is_space c) (lower ''What's Included?'')) = ''whats_included''"
    by code_simp
  show ?thesis
    using infer_section_name_first_group [of "''About the property''"]
      infer_section_name_first_group [of "''Location & Commute''"]
      infer_section_name_first_group [of "''Payment Policies''"]
      infer_section_name_first_group [of "''Cancellation''"]
      infer_section_name_first_group [of "''Special Offers''"]
      infer_section_name_first_group [of "''Reviews''"]
      infer_section_name_first_group [of "''Contact Us''"]
      infer_section_name_first_group [of "''Key Features''"]
      infer_section_name_first_group [of "''What's Included?''"]
    unfolding 1 2 3 4 5 6 7 8 9 10 by simp
qed

text \<open>
  The claim as the specification states it fails: a heading with "about" is named
  \<open>about\<close>, which is not \<open>property_overview\<close> and not a name of the taxonomy.
\<close>

theorem infer_section_name_about_counterexample:
  "infer_section_name ''About the property'' = ''about'' \<and>
   infer_section_name ''About the property'' \<noteq> ''property_overview'' \<and>
   ''about'' \<notin> set canonical_taxonomy"
  by code_simp

section \<open>The Firecrawl parser: the property name\<close>

text \<open>The heading pattern of \<open>_extract_real_property_name\<close>, \<open>^#+\s*(.+)$\<close>.\<close>

definition heading_line_re :: re where
  "heading_line_re = seq [Bol, many1 (chr CHR ''#''), many space, Grp 1 (many1 Dot), Eol]"

text \<open>The test on the fallback name: it looks like the alt text of an image.\<close>

definition looks_like_alt_text :: "string \<Rightarrow> bool" where
  "looks_like_alt_text fallback =
     (contains fallback '' - Bedroom'' \<or> contains fallback '' - Amenities''
      \<or> contains fallback '' - Kitchen'')"

text \<open>
  The loop over the first lines, with its early return: the first line that is a heading
  whose text passes the test gives the name.
\<close>

fun first_heading_name :: "string list \<Rightarrow> string option" where
  "first_heading_name [] = None"
| "first_heading_name (line # lines) =
     (case re_match no_flags heading_line_re (strip line) of
        None \<Rightarrow> first_heading_name lines
      | Some (mt, c) \<Rightarrow>
          (let candidate = strip (group c 1) in
           if 3 < length candidate \<and> length candidate < 80
              \<and> \<not> contains candidate ''Overview''
              \<and> \<not> contains candidate ''Bedroom''
              \<and> \<not> contains candidate ''Amenities''
           then Some candidate
           else first_heading_name lines))"

text \<open>
  \<open>_extract_real_property_name(text, fallback)\<close>; \<open>fallback\<close> is \<open>None\<close> when the data has no
  \<open>property_name\<close>. \<open>fallback.split(' - ')\<close> is never empty, so the test \<open>if parts\<close> holds
  whenever it is reached.
\<close>

definition extract_real_property_name :: "string \<Rightarrow> string option \<Rightarrow> string" where
  "extract_real_property_name text fallback =
     (case fallback of
        None \<Rightarrow> ''Unknown Property''
      | Some fb \<Rightarrow>
          if fb \<noteq> [] \<and> looks_like_alt_text fb then
            (case first_heading_name (take 20 (split [NL] text)) of
               Some candidate \<Rightarrow> candidate
             | None \<Rightarrow>
                 (case split '' - '' fb of
                    part # parts \<Rightarrow> strip part
                  | [] \<Rightarrow> fb))
          else if fb = [] then ''Unknown Property'' else fb)"

text \<open>
  The words of the specification: the text a heading line captures, the test on it, and
  the qualifying headings among the first 20 lines of the text, in their order.
\<close>

definition heading_text :: "string \<Rightarrow> string option" where
  "heading_text line =
     map_option (\<lambda>(mt, c). strip (group c 1)) (re_match no_flags heading_line_re (strip line))"

definition qualifies :: "string \<Rightarrow> bool" where
  "qualifies t =
     (4 \<le> length t \<and> length t \<le> 79 \<and> \<not> contains t ''Overview''
      \<and> \<not> contains t ''Bedroom'' \<and> \<not> contains t ''Amenities'')"

definition qualifying_headings :: "string \<Rightarrow> string list" where
  "qualifying_headings text =
     filter qualifies (List.map_filter heading_text (take 20 (split [NL] text)))"

lemma first_heading_name_filter:
  "first_heading_name lines =
     (case filter qualifies (List.map_filter heading_text lines) of
        [] \<Rightarrow> None
      | t # ts \<Rightarrow> Some t)"
proof (induction lines)
  case Nil
  then show ?case by (simp add: List.map_filter_simps)
next
  case (Cons line lines)
  show ?case
  proof (cases "re_match no_flags heading_line_re (strip line)")
    case None
    then show ?thesis using Cons by (simp add: List.map_filter_simps heading_text_def)
  next
    case (Some a)
    obtain mt c where a: "a = (mt, c)" by (cases a)
    have ht: "heading_text line = Some (strip (group c 1))"
      using Some a by (simp add: heading_text_def)
    show ?thesis
    proof (cases "qualifies (strip (group c 1))")
      case True
      then show ?thesis
        using Some a ht by (simp add: List.map_filter_simps qualifies_def Let_def)
    next
      case False
      then have "first_heading_name (line # lines) = first_heading_name lines"
        using Some a by (auto simp: qualifies_def Let_def)
      then show ?thesis
        using Cons False ht by (simp add: List.map_filter_simps)
    qed
  qed
qed

lemma alt_text_has_separator: "looks_like_alt_text fb \<Longrightarrow> contains fb '' - ''"
proof -
  assume "looks_like_alt_text fb"
  then consider "contains fb ('' - '' @ ''Bedroom'')" | "contains fb ('' - '' @ ''Amenities'')"
    | "contains fb ('' - '' @ ''Kitchen'')"
    by (auto simp: looks_like_alt_text_def)
  then show ?thesis by cases (erule contains_prefix_part)+
qed

lemma looks_like_alt_text_nonempty: "looks_like_alt_text fb \<Longrightarrow> fb \<noteq> []"
  by (auto simp: looks_like_alt_text_def)

text \<open>
  Claim C4, as the code has it. When the candidate name contains \<open>" - Bedroom"\<close>,
  \<open>" - Amenities"\<close> or \<open>" - Kitchen"\<close>, the name is the first heading among the first 20
  lines whose text has 4 to 79 characters and none of the tokens Overview, Bedroom,
  Amenities; if there is none, it is the part of the candidate before its first
  \<open>" - "\<close> (the first piece of the split), with the whitespace at its ends stripped. Any other non-empty candidate is
  the name itself, and without a candidate the name is "Unknown Property".
\<close>

theorem extract_real_property_name_resolution:
  "(looks_like_alt_text fb \<longrightarrow>
      extract_real_property_name text (Some fb) =
        (case qualifying_headings text of
           t # ts \<Rightarrow> t
         | [] \<Rightarrow> strip (hd (split '' - '' fb)))) \<and>
   (looks_like_alt_text fb \<and> qualifying_headings text = [] \<longrightarrow>
      (\<exists>part rest. fb = part @ '' - '' @ rest \<and>
         (\<forall>k < length part. \<not> prefix '' - '' (drop k fb)) \<and>
         extract_real_property_name text (Some fb) = strip part)) \<and>
   (\<not> looks_like_alt_text fb \<and> fb \<noteq> [] \<longrightarrow> extract_real_property_name text (Some fb) = fb) \<and>
   extract_real_property_name text (Some []) = ''Unknown Property'' \<and>
   extract_real_property_name text None = ''Unknown Property''"
proof (intro conjI impI)
  assume alt: "looks_like_alt_text fb"
  then have ne: "fb \<noteq> []" by (rule looks_like_alt_text_nonempty)
  obtain part parts where sp: "split '' - '' fb = part # parts"
    using split_nonempty[of "'' - ''" fb] by (cases "split '' - '' fb") auto
  show "extract_real_property_name text (Some fb) =
        (case qualifying_headings text of t # ts \<Rightarrow> t | [] \<Rightarrow> strip (hd (split '' - '' fb)))"
    using alt ne sp
    by (simp add: extract_real_property_name_def first_heading_name_filter
        qualifying_headings_def split: list.splits)
next
  assume a: "looks_like_alt_text fb \<and> qualifying_headings text = []"
  then have alt: "looks_like_alt_text fb" and q: "qualifying_headings text = []" by auto
  from alt have ne: "fb \<noteq> []" by (rule looks_like_alt_text_nonempty)
  obtain part parts where sp: "split '' - '' fb = part # parts"
    using split_nonempty[of "'' - ''" fb] by (cases "split '' - '' fb") auto
  have res: "extract_real_property_name text (Some fb) = strip part"
    using alt ne sp q
    by (simp add: extract_real_property_name_def first_heading_name_filter
        qualifying_headings_def)
  have "contains fb '' - ''" using alt by (rule alt_text_has_separator)
  from split_hd_occurrence[OF _ this] obtain rest where
    "fb = hd (split '' - '' fb) @ '' - '' @ rest"
    "\<forall>k < length (hd (split '' - '' fb)). \<not> prefix '' - '' (drop k fb)" by auto
  with sp res show "\<exists>part rest. fb = part @ '' - '' @ rest \<and>
         (\<forall>k < length part. \<not> prefix '' - '' (drop k fb)) \<and>
         extract_real_property_name text (Some fb) = strip part"
    by auto
next
  assume "\<not> looks_like_alt_text fb \<and> fb \<noteq> []"
  then show "extract_real_property_name text (Some fb) = fb"
    by (simp add: extract_real_property_name_def)
next
  show "extract_real_property_name text (Some []) = ''Unknown Property''"
    by (simp add: extract_real_property_name_def)
next
  show "extract_real_property_name text None = ''Unknown Property''"
    by (simp add: extract_real_property_name_def)
qed

theorem extract_real_property_name_resolution_witness:
  "extract_real_property_name
     (''Menu'' @ [NL] @ ''## 1Ten On Whyte - Student Living'' @ [NL] @ ''## Overview'')
     (Some ''1Ten on Whyte, Edmonton - Edmonton, Canada - 1 Bed 1 Bath - Bedroom'')
     = ''1Ten On Whyte - Student Living'' \<and>
   extract_real_property_name
     (''Menu'' @ [NL] @ ''## Overview'')
     (Some ''1Ten on Whyte, Edmonton - Edmonton, Canada - 1 Bed 1 Bath - Bedroom'')
     = ''1Ten on Whyte, Edmonton'' \<and>
   extract_real_property_name ''## Some Heading'' (Some ''iQ Sterling Court'') = ''iQ Sterling Court''"
proof -
  let ?fb = "''1Ten on Whyte, Edmonton - Edmonton, Canada - 1 Bed 1 Bath - Bedroom''"
  let ?t1 = "''Menu'' @ [NL] @ ''## 1Ten On Whyte - Student Living'' @ [NL] @ ''## Overview''"
  let ?t2 = "''Menu'' @ [NL] @ ''## Overview''"
  have alt: "looks_like_alt_text ?fb" by code_simp
  have q1: "qualifying_headings ?t1 = [''1Ten On Whyte - Student Living'']" by code_simp
  have q2: "qualifying_headings ?t2 = []" by code_simp
  have hd: "strip (hd (split '' - '' ?fb)) = ''1Ten on Whyte, Edmonton''" by code_simp
  have no: "\<not> looks_like_alt_text ''iQ Sterling Court''" by code_simp
  show ?thesis
    using extract_real_property_name_resolution [of ?fb ?t1]
      extract_real_property_name_resolution [of ?fb ?t2]
      extract_real_property_name_resolution [of "''iQ Sterling Court''" "''## Some Heading''"]
      alt q1 q2 hd no
    by simp
qed

text \<open>
  The claim as the specification states it fails where whitespace stands before the
  first \<open>" - "\<close>: the name is the stripped part, not the part itself.
\<close>

theorem extract_real_property_name_counterexample:
  "hd (split '' - '' ''Foo Tower  - Bedroom'') = ''Foo Tower '' \<and>
   extract_real_property_name [] (Some ''Foo Tower  - Bedroom'') = ''Foo Tower''"
  by code_simp

section \<open>The Firecrawl parser: the items of a section\<close>

text \<open>
  The loop that ends \<open>_extract_items_from_firecrawl_content\<close>: the items stripped, the
  empty ones, the ones of one character and the ones seen before left out.
\<close>

fun unique_items :: "string set \<Rightarrow> string list \<Rightarrow> string list" where
  "unique_items seen [] = []"
| "unique_items seen (item # rest) =
     (let item_clean = strip item in
      if item_clean \<noteq> [] \<and> item_clean \<notin> seen \<and> length item_clean > 1
      then item_clean # unique_items (insert item_clean seen) rest
      else unique_items seen rest)"

text \<open>Pattern 2: the lines with two spaces in a row, split on runs of two or more whitespace characters.\<close>

definition space_separated_items :: "string \<Rightarrow> string list" where
  "space_separated_items content =
     concat (map (\<lambda>line.
        if contains line ''  '' then
          filter (\<lambda>item. item \<noteq> [] \<and> length item > 1 \<and> length item < 100)
            (map strip (re_split no_flags (Rep space 2 None True) (strip line)))
        else [])
      (split [NL] content))"

text \<open>Pattern 3: the stripped non-empty lines of 3 to 49 characters.\<close>

definition short_lines :: "string \<Rightarrow> string list" where
  "short_lines content =
     filter (\<lambda>l. length l < 50 \<and> length l > 2)
       (filter (\<lambda>l. l \<noteq> []) (map strip (split [NL] content)))"

text \<open>Pattern 4, \<open>###\s*(.+\?)\<close>, and pattern 5, \<open>(\d+\s*Bed\s*\d*\s*Bath)\<close>.\<close>

definition question_re :: re where
  "question_re = seq [Lit ''###'', many space, Grp 1 (seq [many1 Dot, Lit ''?''])]"

definition room_re :: re where
  "room_re = Grp 1 (seq [many1 digit, many space, Lit ''Bed'', many space, many digit, many space, Lit ''Bath''])"

text \<open>
  \<open>_extract_items_from_firecrawl_content(content, section_name)\<close>. Two things the function
  uses are not in the sources and are parameters: \<open>extract_items_from_text\<close> is the method
  of that name of \<open>BaseParser\<close>, and \<open>set_order\<close> gives the order in which Python
  lists the elements of \<open>set(room_patterns)\<close>.
\<close>

definition extract_items_from_firecrawl_content ::
  "(string \<Rightarrow> string list) \<Rightarrow> (string list \<Rightarrow> string list) \<Rightarrow> string \<Rightarrow> string \<Rightarrow> string list" where
  "extract_items_from_firecrawl_content extract_items_from_text set_order content section_name =
     (let items1 = extract_items_from_text content;
          items2 = (if length items1 < 3 then items1 @ space_separated_items content else items1);
          items3 = (if length items2 < 3 \<and> length (short_lines content) \<ge> 3
                    then items2 @ take 20 (short_lines content) else items2);
          items4 = (if contains (lower section_name) ''faq'' \<or> contains (lower section_name) ''question''
                    then items3 @ re_findall no_flags question_re content else items3);
          items5 = (if contains (lower section_name) ''room''
                    then items4 @ set_order (re_findall no_flags room_re content) else items4)
      in take 50 (unique_items {} items5))"

text \<open>
  Modelled from the spec: \<open>BaseParser._extract_items_from_text\<close> is not among the sources.
  The specification names the first strategy "leading-dash bullet lines": a line that
  begins with a dash gives the text after the dash.
\<close>

definition leading_dash_items :: "string \<Rightarrow> string list" where
  "leading_dash_items content =
     map (\<lambda>l. strip (tl (strip l))) (filter (\<lambda>l. prefix ''-'' (strip l)) (split [NL] content))"

text \<open>What the final loop keeps: the stripped items of more than one character, each once, in the order of their first appearance.\<close>

lemma fromkeys_set: "set (fromkeys xs) = set xs"
  by (induction xs rule: fromkeys.induct) auto

lemma fromkeys_distinct: "distinct (fromkeys xs)"
  by (induction xs rule: fromkeys.induct) (auto simp: fromkeys_set)

lemma unique_items_fromkeys:
  "unique_items seen xs =
     fromkeys (filter (\<lambda>i. 1 < length i \<and> i \<notin> seen) (map strip xs))"
proof (induction xs arbitrary: seen)
  case Nil
  then show ?case by simp
next
  case (Cons x xs)
  have eq: "filter (\<lambda>y. y \<noteq> strip x) (filter (\<lambda>i. 1 < length i \<and> i \<notin> seen) (map strip xs))
          = filter (\<lambda>i. 1 < length i \<and> i \<notin> insert (strip x) seen) (map strip xs)"
    by (auto intro: filter_cong)
  show ?case
  proof (cases "1 < length (strip x) \<and> strip x \<notin> seen")
    case True
    then have "strip x \<noteq> []" by auto
    with True show ?thesis using Cons[of "insert (strip x) seen"] eq by (simp add: Let_def)
  next
    case False
    then show ?thesis using Cons[of seen] by (auto simp: Let_def)
  qed
qed

lemma unique_items_distinct: "distinct (unique_items seen xs)"
  by (simp add: unique_items_fromkeys fromkeys_distinct)

lemma unique_items_length: "i \<in> set (unique_items seen xs) \<Longrightarrow> 2 \<le> length i"
  by (auto simp: unique_items_fromkeys fromkeys_set)

text \<open>
  The cascade of the first three patterns, as it accumulates: a pattern is tried when
  the patterns before it have found fewer than 3 items together, and what it finds is
  added to what they found.
\<close>

definition cascade :: "(string \<Rightarrow> string list) \<Rightarrow> string \<Rightarrow> string list" where
  "cascade extract_items_from_text content =
     (let bullets = extract_items_from_text content;
          spaced = space_separated_items content;
          short = short_lines content
      in if 3 \<le> length bullets then bullets
         else if 3 \<le> length (bullets @ spaced) then bullets @ spaced
         else if 3 \<le> length short then bullets @ spaced @ take 20 short
         else bullets @ spaced)"

text \<open>
  All the items found, before the final loop: the cascade, then the questions for a
  section name with "faq" or "question", then the bed and bath patterns for a name with
  "room".
\<close>

definition raw_items ::
  "(string \<Rightarrow> string list) \<Rightarrow> (string list \<Rightarrow> string list) \<Rightarrow> string \<Rightarrow> string \<Rightarrow> string list" where
  "raw_items extract_items_from_text set_order content section_name =
     cascade extract_items_from_text content
     @ (if contains (lower section_name) ''faq'' \<or> contains (lower section_name) ''question''
        then re_findall no_flags question_re content else [])
     @ (if contains (lower section_name) ''room''
        then set_order (re_findall no_flags room_re content) else [])"

lemma tail_patterns:
  "(if r then (if f then i3 @ q else i3) @ rr else (if f then i3 @ q else i3))
     = i3 @ (if f then q else []) @ (if r then rr else [])"
  by simp

lemma extract_items_raw:
  "extract_items_from_firecrawl_content extract_items_from_text set_order content section_name =
     take 50 (fromkeys (filter (\<lambda>i. 1 < length i)
       (map strip (raw_items extract_items_from_text set_order content section_name))))"
proof -
  let ?b = "extract_items_from_text content"
  let ?sp = "space_separated_items content"
  let ?sh = "short_lines content"
  let ?i2 = "if length ?b < 3 then ?b @ ?sp else ?b"
  let ?i3 = "if length ?i2 < 3 \<and> length ?sh \<ge> 3 then ?i2 @ take 20 ?sh else ?i2"
  let ?f = "contains (lower section_name) ''faq'' \<or> contains (lower section_name) ''question''"
  let ?r = "contains (lower section_name) ''room''"
  let ?i4 = "if ?f then ?i3 @ re_findall no_flags question_re content else ?i3"
  let ?i5 = "if ?r then ?i4 @ set_order (re_findall no_flags room_re content) else ?i4"
  have c: "?i3 = cascade extract_items_from_text content"
  proof (cases "3 \<le> length ?b")
    case True
    then show ?thesis by (simp add: cascade_def Let_def)
  next
    case b: False
    show ?thesis
    proof (cases "3 \<le> length (?b @ ?sp)")
      case True
      with b show ?thesis by (simp add: cascade_def Let_def)
    next
      case sp: False
      show ?thesis
      proof (cases "3 \<le> length ?sh")
        case True
        with b sp show ?thesis by (simp add: cascade_def Let_def)
      next
        case False
        with b sp show ?thesis by (simp add: cascade_def Let_def)
      qed
    qed
  qed
  have "extract_items_from_firecrawl_content extract_items_from_text set_order content section_name =
     take 50 (unique_items {} ?i5)"
    by (simp only: extract_items_from_firecrawl_content_def Let_def)
  also have "?i5 = ?i3 @ (if ?f then re_findall no_flags question_re content else [])
                   @ (if ?r then set_order (re_findall no_flags room_re content) else [])"
    by (rule tail_patterns)
  finally show ?thesis
    unfolding c by (simp only: raw_items_def unique_items_fromkeys empty_iff simp_thms)
qed


text \<open>
  Claim C2, as the code has it. The first three patterns are tried in order; each is
  tried only while the patterns before it have found fewer than 3 items together, and
  adds its items to theirs; the short-line pattern adds its first 20 lines only when
  there are at least 3 of them, so when all three fall short the list is what patterns 1
  and 2 found. The patterns of the section name run whatever has been found: for a name
  with "faq" or "question" the question lines are added, for a name with "room" the
  bed and bath patterns. The result is the first 50 of the stripped items of more than
  one character, each once, in the order of first appearance.
\<close>

theorem extract_items_cascade:
  "extract_items_from_firecrawl_content extract_items_from_text set_order content section_name =
     take 50 (fromkeys (filter (\<lambda>i. 1 < length i) (map strip
       (cascade extract_items_from_text content
        @ (if contains (lower section_name) ''faq'' \<or> contains (lower section_name) ''question''
           then re_findall no_flags question_re content else [])
        @ (if contains (lower section_name) ''room''
           then set_order (re_findall no_flags room_re content) else [])))))"
  by (simp only: extract_items_raw raw_items_def)

theorem extract_items_cascade_witness:
  "extract_items_from_firecrawl_content leading_dash_items remdups
     ''Gym  Study Room Courtyard Boardroom  On-Site Laundry  Study Lounge'' ''amenities''
   = [''Gym'', ''Study Room Courtyard Boardroom'', ''On-Site Laundry'', ''Study Lounge'']"
  by (subst extract_items_cascade) code_simp

text \<open>
  The claim as the specification states it fails: here no line has a dash or two spaces,
  the short-line pattern finds four items, and the question pattern still adds a fifth.
\<close>

theorem extract_items_later_strategy_counterexample:
  "\<forall>set_order.
     leading_dash_items (''Gym'' @ [NL] @ ''Pool'' @ [NL] @ ''Spa'' @ [NL] @ ''### Why?'') = [] \<and>
     space_separated_items (''Gym'' @ [NL] @ ''Pool'' @ [NL] @ ''Spa'' @ [NL] @ ''### Why?'') = [] \<and>
     short_lines (''Gym'' @ [NL] @ ''Pool'' @ [NL] @ ''Spa'' @ [NL] @ ''### Why?'')
       = [''Gym'', ''Pool'', ''Spa'', ''### Why?''] \<and>
     extract_items_from_firecrawl_content leading_dash_items set_order
       (''Gym'' @ [NL] @ ''Pool'' @ [NL] @ ''Spa'' @ [NL] @ ''### Why?'') ''faqs''
       = [''Gym'', ''Pool'', ''Spa'', ''### Why?'', ''Why?'']"
proof
  fix set_order :: "string list \<Rightarrow> string list"
  let ?c = "''Gym'' @ [NL] @ ''Pool'' @ [NL] @ ''Spa'' @ [NL] @ ''### Why?''"
  have 1: "leading_dash_items ?c = []" by code_simp
  have 2: "space_separated_items ?c = []" by code_simp
  have 3: "short_lines ?c = [''Gym'', ''Pool'', ''Spa'', ''### Why?'']" by code_simp
  have 4: "extract_items_from_firecrawl_content leading_dash_items set_order ?c ''faqs''
           = [''Gym'', ''Pool'', ''Spa'', ''### Why?'', ''Why?'']" by code_simp
  from 1 2 3 4 show
    "leading_dash_items ?c = [] \<and> space_separated_items ?c = [] \<and>
     short_lines ?c = [''Gym'', ''Pool'', ''Spa'', ''### Why?''] \<and>
     extract_items_from_firecrawl_content leading_dash_items set_order ?c ''faqs''
       = [''Gym'', ''Pool'', ''Spa'', ''### Why?'', ''Why?'']"
    by blast
qed

section \<open>The Firecrawl parser: the sections of a text\<close>

text \<open>
  \<open>PreSection\<close>, as \<open>FirecrawlParser\<close> builds it: the section name (slug), the heading
  shown, the text of the section and its items.
\<close>

record pre_section =
  original_name :: string
  display_name :: string
  content :: string
  items :: "string list"





subsection \<open>Strategy 1: the headings\<close>





subsection \<open>Strategy 2: the sections without a heading\<close>














definition multiline_only :: flags where
  "multiline_only = \<lparr>ignorecase = False, multiline = True, dotall = False\<rparr>"















section \<open>The Firecrawl parser: merging the sections of the two strategies\<close>

text \<open>
  The loop that ends \<open>_extract_firecrawl_sections\<close>. \<open>first_named n us\<close> is
  \<open>[s for s in unique_sections if s.original_name == n][0]\<close>, which raises \<open>IndexError\<close> on
  an empty list; \<open>dedup_step\<close> is one pass of the loop body over the state
  \<open>(seen, unique_sections)\<close>.
\<close>

fun first_named :: "string \<Rightarrow> pre_section list \<Rightarrow> py_error + pre_section" where
  "first_named n us =
     (case filter (\<lambda>s. original_name s = n) us of
        [] \<Rightarrow> Inl IndexError
      | s # rest \<Rightarrow> Inr s)"

fun dedup_step ::
  "pre_section \<Rightarrow> string set \<times> pre_section list \<Rightarrow> py_error + (string set \<times> pre_section list)" where
  "dedup_step section (seen, unique_sections) =
     (if original_name section \<notin> seen then
        Inr (insert (original_name section) seen, unique_sections @ [section])
      else
        (case first_named (original_name section) unique_sections of
           Inl e \<Rightarrow> Inl e
         | Inr kept \<Rightarrow>
             if length (items section) > length (items kept) then
               Inr (insert (original_name section) seen,
                    filter (\<lambda>s. original_name s \<noteq> original_name section) unique_sections @ [section])
             else Inr (seen, unique_sections)))"

fun dedup_loop ::
  "pre_section list \<Rightarrow> string set \<times> pre_section list \<Rightarrow> py_error + pre_section list" where
  "dedup_loop [] (seen, unique_sections) = Inr unique_sections"
| "dedup_loop (section # rest) st =
     (case dedup_step section st of
        Inl e \<Rightarrow> Inl e
      | Inr st' \<Rightarrow> dedup_loop rest st')"

definition dedup_sections :: "pre_section list \<Rightarrow> py_error + pre_section list" where
  "dedup_sections sections = dedup_loop sections ({}, [])"

text \<open>
  The rule of the specification, in its words: among the candidates for a name, in the
  order of discovery, the first one is kept and a later one replaces the winner so far
  exactly when it has strictly more items.
\<close>

fun winner :: "pre_section \<Rightarrow> pre_section list \<Rightarrow> pre_section" where
  "winner w [] = w"
| "winner w (c # cs) = winner (if length (items c) > length (items w) then c else w) cs"

definition candidates :: "string \<Rightarrow> pre_section list \<Rightarrow> pre_section list" where
  "candidates n sections = filter (\<lambda>s. original_name s = n) sections"

definition winner_of :: "string \<Rightarrow> pre_section list \<Rightarrow> pre_section option" where
  "winner_of n sections =
     (case candidates n sections of [] \<Rightarrow> None | c # cs \<Rightarrow> Some (winner c cs))"

lemma winner_snoc:
  "winner w (cs @ [c]) = (if length (items c) > length (items (winner w cs)) then c else winner w cs)"
  by (induction cs arbitrary: w) auto

lemma winner_of_snoc_other:
  "original_name s \<noteq> n \<Longrightarrow> winner_of n (past @ [s]) = winner_of n past"
  by (simp add: winner_of_def candidates_def)

lemma winner_of_snoc_same:
  "winner_of (original_name s) (past @ [s]) =
     (case winner_of (original_name s) past of
        None \<Rightarrow> Some s
      | Some w \<Rightarrow> Some (if length (items s) > length (items w) then s else w))"
  by (auto simp: winner_of_def candidates_def winner_snoc split: list.splits)

lemma winner_of_None: "winner_of n past = None \<longleftrightarrow> n \<notin> original_name ` set past"
proof -
  have "winner_of n past = None \<longleftrightarrow> filter (\<lambda>s. original_name s = n) past = []"
    by (simp add: winner_of_def candidates_def split: list.splits)
  also have "\<dots> \<longleftrightarrow> n \<notin> original_name ` set past"
    by (auto simp: filter_empty_conv)
  finally show ?thesis .
qed

text \<open>
  The invariant of the loop after the sections \<open>past\<close>: \<open>seen\<close> holds their names, the
  kept sections have pairwise different names, and each is the winner for its name.
\<close>

definition dedup_inv :: "pre_section list \<Rightarrow> string set \<times> pre_section list \<Rightarrow> bool" where
  "dedup_inv past st =
     (case st of (seen, us) \<Rightarrow>
        seen = original_name ` set past \<and>
        distinct (map original_name us) \<and>
        original_name ` set us = seen \<and>
        (\<forall>u \<in> set us. winner_of (original_name u) past = Some u))"

lemma first_named_distinct:
  "distinct (map original_name us) \<Longrightarrow> u \<in> set us \<Longrightarrow> first_named (original_name u) us = Inr u"
proof (induction us)
  case Nil
  then show ?case by simp
next
  case (Cons a us)
  then show ?case by (auto split: list.splits simp: filter_empty_conv image_iff)
qed

lemma dedup_step_inv:
  assumes "dedup_inv past st"
  shows "\<exists>st'. dedup_step s st = Inr st' \<and> dedup_inv (past @ [s]) st'"
proof -
  obtain seen us where st: "st = (seen, us)" by (cases st)
  from assms st have seen: "seen = original_name ` set past"
    and dist: "distinct (map original_name us)"
    and names: "original_name ` set us = seen"
    and win: "\<forall>u \<in> set us. winner_of (original_name u) past = Some u"
    by (auto simp: dedup_inv_def)
  show ?thesis
  proof (cases "original_name s \<in> seen")
    case False
    then have none: "winner_of (original_name s) past = None"
      using seen by (simp add: winner_of_None)
    have "dedup_step s st = Inr (insert (original_name s) seen, us @ [s])"
      using False st by simp
    moreover have "dedup_inv (past @ [s]) (insert (original_name s) seen, us @ [s])"
      unfolding dedup_inv_def
    proof (simp only: prod.case, intro conjI ballI)
      show "insert (original_name s) seen = original_name ` set (past @ [s])"
        using seen by auto
      show "distinct (map original_name (us @ [s]))"
        using dist names False by auto
      show "original_name ` set (us @ [s]) = insert (original_name s) seen"
        using names by auto
      fix x assume "x \<in> set (us @ [s])"
      then consider "x = s" | "x \<in> set us" by auto
      then show "winner_of (original_name x) (past @ [s]) = Some x"
      proof cases
        case 1
        then show ?thesis using none by (simp add: winner_of_snoc_same)
      next
        case 2
        then have "original_name x \<in> seen" using names by blast
        with False have "original_name x \<noteq> original_name s" by metis
        then show ?thesis using win 2 by (simp add: winner_of_snoc_other)
      qed
    qed
    ultimately show ?thesis by blast
  next
    case True
    then obtain u where u: "u \<in> set us" and un: "original_name u = original_name s"
      using names by auto
    from first_named_distinct[OF dist u] un
    have fn: "first_named (original_name s) us = Inr u" by simp
    from win u un have wu: "winner_of (original_name s) past = Some u" by auto
    show ?thesis
    proof (cases "length (items s) > length (items u)")
      case gt: True
      let ?us' = "filter (\<lambda>x. original_name x \<noteq> original_name s) us @ [s]"
      have step: "dedup_step s st = Inr (insert (original_name s) seen, ?us')"
        using True fn gt st by (simp del: first_named.simps)
      have "dedup_inv (past @ [s]) (insert (original_name s) seen, ?us')"
        unfolding dedup_inv_def
      proof (simp only: prod.case, intro conjI ballI)
        show "insert (original_name s) seen = original_name ` set (past @ [s])"
          using seen by auto
        show "distinct (map original_name ?us')"
          using dist by (auto simp: distinct_map_filter)
        show "original_name ` set ?us' = insert (original_name s) seen"
          using names True by auto
        fix x assume "x \<in> set ?us'"
        then consider "x = s" | "x \<in> set us" "original_name x \<noteq> original_name s" by auto
        then show "winner_of (original_name x) (past @ [s]) = Some x"
        proof cases
          case 1
          then show ?thesis using wu gt by (simp add: winner_of_snoc_same)
        next
          case 2
          then show ?thesis using win by (simp add: winner_of_snoc_other)
        qed
      qed
      with step show ?thesis by blast
    next
      case le: False
      have step: "dedup_step s st = Inr (seen, us)"
        using True fn le st by (simp del: first_named.simps)
      have "dedup_inv (past @ [s]) (seen, us)"
        unfolding dedup_inv_def
      proof (simp only: prod.case, intro conjI ballI)
        show "seen = original_name ` set (past @ [s])" using seen True by auto
        show "distinct (map original_name us)" by (rule dist)
        show "original_name ` set us = seen" by (rule names)
        fix x assume x: "x \<in> set us"
        show "winner_of (original_name x) (past @ [s]) = Some x"
        proof (cases "original_name x = original_name s")
          case True
          with x u un dist have "x = u" by (auto simp: distinct_map inj_on_def)
          then show ?thesis using wu le True un by (simp add: winner_of_snoc_same)
        next
          case False
          then show ?thesis using win x by (simp add: winner_of_snoc_other)
        qed
      qed
      with step show ?thesis by blast
    qed
  qed
qed

lemma dedup_loop_inv:
  "dedup_inv past st \<Longrightarrow>
   \<exists>us seen. dedup_loop rest st = Inr us \<and> dedup_inv (past @ rest) (seen, us)"
proof (induction rest arbitrary: past st)
  case Nil
  then show ?case by (cases st) auto
next
  case (Cons s rest)
  from dedup_step_inv[OF Cons.prems, of s] obtain st' where
    step: "dedup_step s st = Inr st'" and inv: "dedup_inv (past @ [s]) st'" by blast
  from Cons.IH[OF inv] step show ?case by simp
qed

lemma dedup_sections_inv:
  "\<exists>us. dedup_sections sections = Inr us \<and> dedup_inv sections (original_name ` set sections, us)"
proof -
  have "dedup_inv [] ({}, [])" by (simp add: dedup_inv_def)
  from dedup_loop_inv[OF this, of sections] show ?thesis
    by (auto simp: dedup_sections_def dedup_inv_def)
qed





text \<open>
  Claim C7. For every list of candidate sections the merging loop ends without an
  exception and keeps exactly one section per name that occurs: no two kept sections
  share a name, every name of a candidate is kept, and the section kept for a name is the
  first candidate of that name, replaced by a later candidate of the same name exactly
  when that one has strictly more items than the winner so far (an equal or smaller count
  never replaces it).
\<close>

theorem dedup_sections_one_winner_per_name:
  "\<exists>us. dedup_sections sections = Inr us \<and>
        distinct (map original_name us) \<and>
        original_name ` set us = original_name ` set sections \<and>
        (\<forall>u \<in> set us. winner_of (original_name u) sections = Some u)"
proof -
  from dedup_sections_inv[of sections] obtain us where
    "dedup_sections sections = Inr us"
    "dedup_inv sections (original_name ` set sections, us)" by blast
  then show ?thesis by (auto simp: dedup_inv_def)
qed

theorem dedup_sections_one_winner_per_name_witness:
  "dedup_sections
     [\<lparr>original_name = ''amenities'', display_name = ''Amenities'', content = ''a'', items = [''Gym'', ''Pool'']\<rparr>,
      \<lparr>original_name = ''faqs'', display_name = ''FAQs'', content = ''b'', items = [''Why?'']\<rparr>,
      \<lparr>original_name = ''amenities'', display_name = ''Amenities'', content = ''c'', items = [''Spa'', ''Bar'']\<rparr>,
      \<lparr>original_name = ''amenities'', display_name = ''Amenities'', content = ''d'', items = [''Gym'', ''Pool'', ''Spa'']\<rparr>]
   = Inr
     [\<lparr>original_name = ''faqs'', display_name = ''FAQs'', content = ''b'', items = [''Why?'']\<rparr>,
      \<lparr>original_name = ''amenities'', display_name = ''Amenities'', content = ''d'', items = [''Gym'', ''Pool'', ''Spa'']\<rparr>]"
  using dedup_sections_one_winner_per_name
    [of "[\<lparr>original_name = ''amenities'', display_name = ''Amenities'', content = ''a'', items = [''Gym'', ''Pool'']\<rparr>,
      \<lparr>original_name = ''faqs'', display_name = ''FAQs'', content = ''b'', items = [''Why?'']\<rparr>,
      \<lparr>original_name = ''amenities'', display_name = ''Amenities'', content = ''c'', items = [''Spa'', ''Bar'']\<rparr>,
      \<lparr>original_name = ''amenities'', display_name = ''Amenities'', content = ''d'', items = [''Gym'', ''Pool'', ''Spa'']\<rparr>]"]
  by (simp add: dedup_sections_def)

section \<open>The Firecrawl parser: the sections of the record\<close>












section \<open>Python values\<close>

text \<open>
  The values \<open>json.loads\<close> returns, which are also the values of the dictionaries the
  functions below receive: \<open>None\<close>, booleans, integers, floats, strings, lists and
  dictionaries. A float is given by the text \<open>repr\<close> prints for it. A dictionary is the
  list of its items in insertion order; a key occurs once, and \<open>d.get(k)\<close> is \<open>get d k\<close>,
  with \<open>None\<close> for a missing key.
\<close>

datatype json =
    JNull
  | JBool bool
  | JInt int
  | JFloat string
  | JStr string
  | JArr "json list"
  | JObj "(string \<times> json) list"

type_synonym dict = "(string \<times> json) list"

definition get :: "dict \<Rightarrow> string \<Rightarrow> json" where
  "get d k = (case map_of d k of None \<Rightarrow> JNull | Some v \<Rightarrow> v)"

text \<open>\<open>d.get(k, default)\<close>\<close>

definition get_or :: "dict \<Rightarrow> string \<Rightarrow> json \<Rightarrow> json" where
  "get_or d k dflt = (case map_of d k of None \<Rightarrow> dflt | Some v \<Rightarrow> v)"

text \<open>The truth value of a value, as \<open>if v\<close>, \<open>not v\<close> and \<open>v or w\<close> take it.\<close>

fun truthy :: "json \<Rightarrow> bool" where
  "truthy JNull = False"
| "truthy (JBool b) = b"
| "truthy (JInt i) = (i \<noteq> 0)"
| "truthy (JFloat r) = (r \<noteq> ''0.0'' \<and> r \<noteq> ''-0.0'')"
| "truthy (JStr s) = (s \<noteq> [])"
| "truthy (JArr xs) = (xs \<noteq> [])"
| "truthy (JObj kvs) = (kvs \<noteq> [])"











text \<open>
  \<open>len(v)\<close>: the length of a string, a list or a dictionary; the other values have none
  and \<open>len\<close> raises \<open>TypeError\<close>.
\<close>

fun py_len :: "json \<Rightarrow> py_error + nat" where
  "py_len (JStr s) = Inr (length s)"
| "py_len (JArr xs) = Inr (length xs)"
| "py_len (JObj kvs) = Inr (length kvs)"
| "py_len v = Inl TypeError"

section \<open>The extractor: short texts\<close>

text \<open>\<open>SimpleLLMExtractor._empty_result(property_name, url)\<close>\<close>

definition empty_result :: "json \<Rightarrow> json \<Rightarrow> dict" where
  "empty_result property_name url =
     [(''property_name'', property_name),
      (''url'', url),
      (''sections_count'', JInt 0),
      (''total_items'', JInt 0),
      (''total_word_count'', JInt 0),
      (''sections'', JArr []),
      (''metrics'', JObj
         [(''amenities_count'', JInt 0),
          (''room_types_count'', JInt 0),
          (''faqs_count'', JInt 0),
          (''bills_included_count'', JInt 0),
          (''payment_options_count'', JInt 0),
          (''universities_mentioned'', JInt 0),
          (''pois_count'', JInt 0),
          (''reviews_count'', JInt 0),
          (''trust_badges_count'', JInt 0),
          (''safety_features_count'', JInt 0)]),
      (''images_count'', JInt 0),
      (''videos_count'', JInt 0)]"

text \<open>
  \<open>SimpleLLMExtractor.extract(raw_data)\<close>, here \<open>simple_extract\<close>. The call of the language model and the
  reading of its answer stand in a \<open>try\<close> whose \<open>except Exception\<close> returns the empty
  result; \<open>llm text property_name url\<close> is the parsed answer, or \<open>None\<close> when anything in
  the \<open>try\<close> raised. An answer that is not a dictionary has no \<open>get\<close>, which raises in
  the \<open>try\<close> as well. \<open>raw_data.get('extracted_content', {}).get('text', '')\<close> raises
  \<open>AttributeError\<close> when the content is not a dictionary, and the warning for a short text
  prints \<open>len(text)\<close>, which raises \<open>TypeError\<close> for a text without a length.
\<close>

definition simple_extract :: "(json \<Rightarrow> json \<Rightarrow> json \<Rightarrow> json option) \<Rightarrow> dict \<Rightarrow> py_error + dict" where
  "simple_extract llm raw_data =
     (case get_or raw_data ''extracted_content'' (JObj []) of
        JObj extracted \<Rightarrow>
          (let text = get_or extracted ''text'' (JStr []);
               property_name = get_or raw_data ''property_name'' (JStr ''Unknown'');
               url = get_or raw_data ''url'' (JStr [])
           in if \<not> truthy text then
                (case py_len text of
                   Inl e \<Rightarrow> Inl e
                 | Inr n \<Rightarrow> Inr (empty_result property_name url))
              else
                (case py_len text of
                   Inl e \<Rightarrow> Inl e
                 | Inr n \<Rightarrow>
                     if n < 50 then Inr (empty_result property_name url)
                     else
                       (case llm text property_name url of
                          Some (JObj result) \<Rightarrow> Inr result
                        | _ \<Rightarrow> Inr (empty_result property_name url))))
      | _ \<Rightarrow> Inl AttributeError)"

text \<open>
  Claim C8, as the code has it. For every input whose text is a string of fewer than 50
  characters the extractor returns, without raising and without a call of the model, the
  empty result: no sections, the counts of sections, items and words 0, every metric 0,
  with the name and the URL of the input (or \<open>'Unknown'\<close> and \<open>''\<close>). The result has no
  confidence score: its keys are the nine of \<open>_empty_result\<close>.
\<close>

theorem extract_short_text:
  assumes "map_of raw_data ''extracted_content'' = Some (JObj extracted)"
    and "map_of extracted ''text'' = Some (JStr t)"
    and "length t < 50"
  shows "simple_extract llm raw_data =
           Inr (empty_result (get_or raw_data ''property_name'' (JStr ''Unknown''))
                             (get_or raw_data ''url'' (JStr []))) \<and>
         map fst (empty_result n u) =
           [''property_name'', ''url'', ''sections_count'', ''total_items'', ''total_word_count'',
            ''sections'', ''metrics'', ''images_count'', ''videos_count''] \<and>
         get (empty_result n u) ''property_name'' = n \<and>
         get (empty_result n u) ''url'' = u \<and>
         get (empty_result n u) ''sections'' = JArr [] \<and>
         get (empty_result n u) ''sections_count'' = JInt 0 \<and>
         get (empty_result n u) ''total_items'' = JInt 0 \<and>
         get (empty_result n u) ''total_word_count'' = JInt 0"
proof -
  have "simple_extract llm raw_data =
           Inr (empty_result (get_or raw_data ''property_name'' (JStr ''Unknown''))
                             (get_or raw_data ''url'' (JStr [])))"
    using assms by (cases "t = []") (simp_all add: simple_extract_def get_or_def Let_def)
  moreover have "map fst (empty_result n u) =
           [''property_name'', ''url'', ''sections_count'', ''total_items'', ''total_word_count'',
            ''sections'', ''metrics'', ''images_count'', ''videos_count'']"
    by (simp add: empty_result_def)
  moreover have "get (empty_result n u) ''property_name'' = n"
    "get (empty_result n u) ''url'' = u"
    "get (empty_result n u) ''sections'' = JArr []"
    "get (empty_result n u) ''sections_count'' = JInt 0"
    "get (empty_result n u) ''total_items'' = JInt 0"
    "get (empty_result n u) ''total_word_count'' = JInt 0"
    by (simp_all add: empty_result_def get_def)
  ultimately show ?thesis by blast
qed

theorem extract_short_text_witness:
  "\<forall>llm. simple_extract llm
     [(''property_name'', JStr ''Sunny Court''),
      (''url'', JStr ''https://example.com/p/1''),
      (''extracted_content'', JObj [(''text'', JStr ''Twenty characters ok'')])]
   = Inr (empty_result (JStr ''Sunny Court'') (JStr ''https://example.com/p/1''))"
proof
  fix llm
  have 1: "map_of [(''property_name'', JStr ''Sunny Court''),
      (''url'', JStr ''https://example.com/p/1''),
      (''extracted_content'', JObj [(''text'', JStr ''Twenty characters ok'')])] ''extracted_content''
    = Some (JObj [(''text'', JStr ''Twenty characters ok'')])" by simp
  have 2: "map_of [(''text'', JStr ''Twenty characters ok'')] ''text'' = Some (JStr ''Twenty characters ok'')"
    by simp
  have 3: "length ''Twenty characters ok'' < 50" by simp
  from extract_short_text [OF 1 2 3, of llm]
  show "simple_extract llm
     [(''property_name'', JStr ''Sunny Court''),
      (''url'', JStr ''https://example.com/p/1''),
      (''extracted_content'', JObj [(''text'', JStr ''Twenty characters ok'')])]
   = Inr (empty_result (JStr ''Sunny Court'') (JStr ''https://example.com/p/1''))"
    by (simp add: get_or_def)
qed

text \<open>
  The claim as the specification states it fails: the record returned for a text of 20
  characters has no \<open>confidence_score\<close>.
\<close>

theorem extract_no_confidence_score_counterexample:
  "\<forall>llm. \<exists>r. simple_extract llm
       [(''property_name'', JStr ''Sunny Court''),
        (''url'', JStr ''https://example.com/p/1''),
        (''extracted_content'', JObj [(''text'', JStr ''Twenty characters ok'')])] = Inr r \<and>
     length ''Twenty characters ok'' = 20 \<and>
     map_of r ''confidence_score'' = None \<and>
     ''confidence_score'' \<notin> set (map fst r)"
proof
  fix llm
  have "simple_extract llm
       [(''property_name'', JStr ''Sunny Court''),
        (''url'', JStr ''https://example.com/p/1''),
        (''extracted_content'', JObj [(''text'', JStr ''Twenty characters ok'')])]
     = Inr (empty_result (JStr ''Sunny Court'') (JStr ''https://example.com/p/1''))"
    by (simp add: simple_extract_def get_or_def Let_def)
  moreover have "map_of (empty_result (JStr ''Sunny Court'') (JStr ''https://example.com/p/1''))
                   ''confidence_score'' = None"
    by (simp add: empty_result_def)
  moreover have "''confidence_score'' \<notin>
      set (map fst (empty_result (JStr ''Sunny Court'') (JStr ''https://example.com/p/1'')))"
    by (simp add: empty_result_def)
  moreover have "length ''Twenty characters ok'' = 20" by simp
  ultimately show "\<exists>r. simple_extract llm
       [(''property_name'', JStr ''Sunny Court''),
        (''url'', JStr ''https://example.com/p/1''),
        (''extracted_content'', JObj [(''text'', JStr ''Twenty characters ok'')])] = Inr r \<and>
     length ''Twenty characters ok'' = 20 \<and>
     map_of r ''confidence_score'' = None \<and>
     ''confidence_score'' \<notin> set (map fst r)"
    by blast
qed

section \<open>The JSON parser: the location\<close>











section \<open>The top-level parser: telling markdown from text\<close>

text \<open>
  The test of \<open>parse_input_to_property_data\<close> for markdown:
  \<open>re.search(r'^#+\s+', text, re.MULTILINE) or re.search(r'\[([^\]]+)\]\(', text)\<close>.
\<close>

definition looks_like_markdown :: "string \<Rightarrow> bool" where
  "looks_like_markdown text =
     (re_search multiline_only (seq [Bol, many1 (chr CHR ''#''), many1 space]) text \<noteq> None
      \<or> re_search no_flags
            (seq [Lit ''['', Grp 1 (many1 (NotIn (\<lambda>c. c = CHR '']''))), Lit '']('']) text \<noteq> None)"

section \<open>The text and markdown parsers: the URL\<close>


subsection \<open>The plain-text path\<close>




subsection \<open>The markdown path\<close>
























section \<open>The top-level parser\<close>

text \<open>
  The argument \<open>data\<close> of \<open>parse_input_to_property_data\<close>, by the \<open>isinstance\<close> tests of the
  function: a \<open>PropertyData\<close>, a dictionary, a string, or a value of another type, given
  by the text \<open>str(type(data))\<close> prints.
\<close>

datatype 'pd py_input =
    IsPropertyData 'pd
  | IsDict dict
  | IsStr string
  | IsOther string

text \<open>
  What the function raises: the \<open>ValueError\<close> of its own two \<open>raise\<close> statements, with its
  message, or an exception that leaves \<open>parse_json_to_property_data\<close> and passes through.
\<close>

datatype 'e parse_error =
    Format_error string
  | Json_parser_error 'e

definition from_json_parser :: "'e + 'pd \<Rightarrow> 'e parse_error + 'pd" where
  "from_json_parser r = (case r of Inl e \<Rightarrow> Inl (Json_parser_error e) | Inr p \<Rightarrow> Inr p)"

text \<open>
  \<open>parse_input_to_property_data(data, input_format, default_url)\<close>. Its collaborators are
  parameters: \<open>json_loads\<close> is \<open>json.loads\<close>, with \<open>Inl\<close> the message of a
  \<open>JSONDecodeError\<close>; \<open>parse_json\<close> is \<open>parse_json_to_property_data\<close>, which returns a record
  or raises; \<open>parse_markdown\<close> and \<open>parse_text\<close> are \<open>parse_markdown_to_property_data\<close> and
  \<open>parse_text_to_property_data\<close>, which have no \<open>raise\<close> and return a record for every
  string.
\<close>

definition parse_input_to_property_data ::
  "(string \<Rightarrow> string + json) \<Rightarrow> (json \<Rightarrow> 'e + 'pd) \<Rightarrow> (string \<Rightarrow> string \<Rightarrow> 'pd)
     \<Rightarrow> (string \<Rightarrow> string \<Rightarrow> 'pd) \<Rightarrow> 'pd py_input \<Rightarrow> string \<Rightarrow> string \<Rightarrow> 'e parse_error + 'pd" where
  "parse_input_to_property_data json_loads parse_json parse_markdown parse_text
       data input_format default_url =
     (case data of
        IsPropertyData p \<Rightarrow> Inr p
      | IsDict d \<Rightarrow> from_json_parser (parse_json (JObj d))
      | IsStr s \<Rightarrow>
          (let text = strip s;
               markdown_or_text =
                 (if looks_like_markdown text then Inr (parse_markdown text default_url)
                  else Inr (parse_text text default_url))
           in if input_format = ''auto'' then
                (if prefix ''{'' text \<or> prefix ''['' text then
                   (case json_loads text of
                      Inr json_data \<Rightarrow> from_json_parser (parse_json json_data)
                    | Inl e \<Rightarrow> markdown_or_text)
                 else markdown_or_text)
              else if input_format = ''json'' then
                (case json_loads text of
                   Inr json_data \<Rightarrow> from_json_parser (parse_json json_data)
                 | Inl e \<Rightarrow> Inl (Format_error (''Invalid JSON format: '' @ e)))
              else if input_format = ''markdown'' then Inr (parse_markdown text default_url)
              else Inr (parse_text text default_url))
      | IsOther ty \<Rightarrow> Inl (Format_error (''Unsupported input type: '' @ ty)))"




text \<open>
  Claim C10. An input that is a \<open>PropertyData\<close> already is returned unchanged, whatever
  the declared format, so parsing the result of a parse gives that result again; when
  the first parse raises, there is no result to parse.
\<close>

theorem parse_input_idempotent:
  "parse_input_to_property_data json_loads parse_json parse_markdown parse_text
     (IsPropertyData p) input_format default_url = Inr p \<and>
   (case parse_input_to_property_data json_loads parse_json parse_markdown parse_text
           x input_format default_url of
      Inl e \<Rightarrow> Inl e
    | Inr r \<Rightarrow>
        parse_input_to_property_data json_loads parse_json parse_markdown parse_text
          (IsPropertyData r) other_format other_url)
   = parse_input_to_property_data json_loads parse_json parse_markdown parse_text
       x input_format default_url"
proof -
  have id: "\<And>q f u. parse_input_to_property_data json_loads parse_json parse_markdown parse_text
     (IsPropertyData q) f u = Inr q"
    by (simp add: parse_input_to_property_data_def)
  show ?thesis
    by (cases "parse_input_to_property_data json_loads parse_json parse_markdown parse_text
           x input_format default_url") (simp_all add: id)
qed

theorem parse_input_idempotent_witness:
  "\<forall>json_loads parse_json parse_markdown parse_text.
     (case parse_input_to_property_data json_loads parse_json parse_markdown parse_text
             (IsStr ''Sunny flat near campus'') ''text'' ''https://example.com'' of
        Inl e \<Rightarrow> Inl e
      | Inr r \<Rightarrow>
          parse_input_to_property_data json_loads parse_json parse_markdown parse_text
            (IsPropertyData r) ''json'' ''https://example.org'')
     = Inr (parse_text ''Sunny flat near campus'' ''https://example.com'')"
proof (intro allI)
  fix json_loads :: "string \<Rightarrow> string + json"
  fix parse_json :: "json \<Rightarrow> 'e + 'pd"
  fix parse_markdown parse_text :: "string \<Rightarrow> string \<Rightarrow> 'pd"
  have st: "strip ''Sunny flat near campus'' = ''Sunny flat near campus''" by code_simp
  have ev: "parse_input_to_property_data json_loads parse_json parse_markdown parse_text
             (IsStr ''Sunny flat near campus'') ''text'' ''https://example.com''
            = Inr (parse_text ''Sunny flat near campus'' ''https://example.com'')"
    by (simp add: parse_input_to_property_data_def Let_def st)
  show "(case parse_input_to_property_data json_loads parse_json parse_markdown parse_text
             (IsStr ''Sunny flat near campus'') ''text'' ''https://example.com'' of
        Inl e \<Rightarrow> Inl e
      | Inr r \<Rightarrow>
          parse_input_to_property_data json_loads parse_json parse_markdown parse_text
            (IsPropertyData r) ''json'' ''https://example.org'')
     = Inr (parse_text ''Sunny flat near campus'' ''https://example.com'')"
    using parse_input_idempotent
      [where json_loads = json_loads and parse_json = parse_json
         and parse_markdown = parse_markdown and parse_text = parse_text
         and x = "IsStr ''Sunny flat near campus''" and input_format = "''text''"
         and default_url = "''https://example.com''" and other_format = "''json''"
         and other_url = "''https://example.org''", THEN conjunct2]
    by (simp only: ev)
qed

end
